theory Spec2Isabelle
  imports Main
begin

section \<open>Values and errors\<close>

text \<open>
  Every \<^verbatim>\<open>throw\<close> and every rejected promise of the scanner is a value:
  \<open>Error msg\<close> is \<^verbatim>\<open>Error(msg)\<close> as the code raises it, \<open>TypeError\<close> is what the engine
  raises when a property of \<^verbatim>\<open>null\<close> is read, \<open>SystemError code\<close> is a failure of the
  \<^verbatim>\<open>fs\<close> module and \<open>SyntaxError\<close> one of \<^verbatim>\<open>JSON.parse\<close>.
\<close>

datatype error = Error string | TypeError | SystemError string | SyntaxError

text \<open>
  \<^verbatim>\<open>IKeyValue<T>\<close> (utilities.ts): an object as the list of its own enumerable entries, in
  the order in which the engine enumerates them.
\<close>

type_synonym 'a IKeyValue = "(string \<times> 'a) list"

section \<open>Ramda helpers used by the scanner\<close>

definition keys :: "'a IKeyValue \<Rightarrow> string list" where
  "keys obj = map fst obj"

definition toPairs :: "'a IKeyValue \<Rightarrow> (string \<times> 'a) list" where
  "toPairs obj = obj"

text \<open>Ramda's \<^verbatim>\<open>prop(p, obj)\<close> is \<^verbatim>\<open>obj[p]\<close>; \<open>None\<close> is \<^verbatim>\<open>undefined\<close>.\<close>

definition prop_of :: "string \<Rightarrow> 'a IKeyValue \<Rightarrow> 'a option" where
  "prop_of p obj = map_of obj p"

text \<open>\<^verbatim>\<open>head\<close> of an empty list is \<^verbatim>\<open>undefined\<close>.\<close>

definition head :: "'a list \<Rightarrow> 'a option" where
  "head xs = (case xs of [] \<Rightarrow> None | x # _ \<Rightarrow> Some x)"

text \<open>\<^verbatim>\<open>uniq\<close> keeps the first occurrence of every element.\<close>

primrec uniqFrom :: "'a list \<Rightarrow> 'a list \<Rightarrow> 'a list" where
  "uniqFrom seen [] = []"
| "uniqFrom seen (x # xs) =
     (if x \<in> set seen then uniqFrom seen xs else x # uniqFrom (x # seen) xs)"

definition uniq :: "'a list \<Rightarrow> 'a list" where
  "uniq xs = uniqFrom [] xs"

text \<open>
  \<^verbatim>\<open>intersection(list1, list2)\<close> as the Ramda releases of the time of this code (0.2x) ship
  it: the shorter list is filtered against the longer one (the first list when they are
  equally long), then \<^verbatim>\<open>uniq\<close>. The order of the result is that of the list filtered; Ramda
  documents no order, and a release that always filters the second list gives the
  common elements in the order of the second list.
\<close>

definition intersection :: "'a list \<Rightarrow> 'a list \<Rightarrow> 'a list" where
  "intersection list1 list2 =
     (let (lookupList, filteredList) =
            (if length list1 > length list2 then (list1, list2) else (list2, list1))
      in uniq (filter (\<lambda>x. x \<in> set lookupList) filteredList))"

definition contains :: "'a \<Rightarrow> 'a list \<Rightarrow> bool" where
  "contains a xs = (a \<in> set xs)"

definition unnest :: "'a list list \<Rightarrow> 'a list" where
  "unnest xss = concat xss"

section \<open>Regular expressions\<close>

text \<open>
  The two regular expressions of the code use literals, \<^verbatim>\<open>\d\<close>, \<^verbatim>\<open>\w\<close>, \<^verbatim>\<open>.\<close>, \<^verbatim>\<open>^\<close>, \<^verbatim>\<open>$\<close>,
  sequence, alternation and the greedy \<^verbatim>\<open>?\<close>. \<open>rx_match n r s\<close> lists, in the order in
  which a backtracking matcher tries them, what is left of \<open>s\<close> after each way \<open>r\<close> can
  match at its start; \<open>n\<close> is the length of the whole subject, so that \<^verbatim>\<open>^\<close> recognises
  its start. An iteration of \<^verbatim>\<open>?\<close> that consumes nothing is rejected, as ECMAScript's
  RepeatMatcher does.
\<close>

datatype regex =
    Lit char
  | Digit
  | WordChar
  | AnyChar
  | Bol
  | Eol
  | Seq regex regex
  | Alt regex regex
  | Opt regex

definition isDigit :: "char \<Rightarrow> bool" where
  "isDigit c = (c \<in> set ''0123456789'')"

definition isWordChar :: "char \<Rightarrow> bool" where
  "isWordChar c =
     (c \<in> set ''abcdefghijklmnopqrstuvwxyzABCDEFGHIJKLMNOPQRSTUVWXYZ0123456789_'')"

definition isLineTerminator :: "char \<Rightarrow> bool" where
  "isLineTerminator c = (c = CHR 0x0A \<or> c = CHR 0x0D)"

definition rx_char :: "(char \<Rightarrow> bool) \<Rightarrow> string \<Rightarrow> string list" where
  "rx_char p s = (case s of [] \<Rightarrow> [] | c # cs \<Rightarrow> if p c then [cs] else [])"

primrec rx_match :: "nat \<Rightarrow> regex \<Rightarrow> string \<Rightarrow> string list" where
  "rx_match n (Lit c) s = rx_char (\<lambda>x. x = c) s"
| "rx_match n Digit s = rx_char isDigit s"
| "rx_match n WordChar s = rx_char isWordChar s"
| "rx_match n AnyChar s = rx_char (\<lambda>x. \<not> isLineTerminator x) s"
| "rx_match n Bol s = (if length s = n then [s] else [])"
| "rx_match n Eol s = (if s = [] then [s] else [])"
| "rx_match n (Seq a b) s = concat (map (rx_match n b) (rx_match n a s))"
| "rx_match n (Alt a b) s = rx_match n a s @ rx_match n b s"
| "rx_match n (Opt a) s = filter (\<lambda>r. r \<noteq> s) (rx_match n a s) @ [s]"

text \<open>
  \<^verbatim>\<open>re.exec(s)\<close> of a regular expression without flags: the first start position at which
  the expression matches, and there the first match in backtracking order. The value
  is element 0 of the result, the matched text; \<open>None\<close> is \<^verbatim>\<open>null\<close>.
\<close>

primrec execFrom :: "nat \<Rightarrow> regex \<Rightarrow> string \<Rightarrow> string option" where
  "execFrom n r [] = (case rx_match n r [] of [] \<Rightarrow> None | m # _ \<Rightarrow> Some [])"
| "execFrom n r (c # cs) =
     (case rx_match n r (c # cs) of
        [] \<Rightarrow> execFrom n r cs
      | m # _ \<Rightarrow> Some (take (length (c # cs) - length m) (c # cs)))"

definition exec :: "regex \<Rightarrow> string \<Rightarrow> string option" where
  "exec r s = execFrom (length s) r s"

text \<open>Ramda's \<^verbatim>\<open>test(re, s)\<close>.\<close>

definition test :: "regex \<Rightarrow> string \<Rightarrow> bool" where
  "test r s = (exec r s \<noteq> None)"

section \<open>utilities.ts\<close>

text \<open>
  \<^verbatim>\<open>prop(compose(head, curry(intersection)(props), keys)(obj), obj)\<close>. With no common key
  \<^verbatim>\<open>head\<close> gives \<^verbatim>\<open>undefined\<close>, and \<^verbatim>\<open>obj[undefined]\<close> reads the key \<^verbatim>\<open>"undefined"\<close>.
\<close>

definition firstDefinedProperty :: "string list \<Rightarrow> 'a IKeyValue \<Rightarrow> 'a option" where
  "firstDefinedProperty props obj =
     prop_of (case head (intersection props (keys obj)) of
             None \<Rightarrow> ''undefined''
           | Some k \<Rightarrow> k) obj"

text \<open>
  The expression of \<^verbatim>\<open>pruneVersionString\<close>:
  \<^verbatim>\<open>/(\*)|(\^|~|<|>|(<|>)=)?((\d.)?(\d.)?)?\d$/\<close>.
\<close>

definition rangeOperator :: regex where
  "rangeOperator =
     Alt (Lit CHR ''^'') (Alt (Lit CHR ''~'') (Alt (Lit CHR ''<'') (Alt (Lit CHR ''>'')
       (Seq (Alt (Lit CHR ''<'') (Lit CHR ''>'')) (Lit CHR ''='')))))"

definition versionRegex :: regex where
  "versionRegex =
     Alt (Lit CHR ''*'')
       (Seq (Opt rangeOperator)
         (Seq (Opt (Seq (Opt (Seq Digit AnyChar)) (Opt (Seq Digit AnyChar))))
           (Seq Digit Eol)))"

text \<open>
  \<^verbatim>\<open>versionRegex.exec(version)[0]\<close>: reading element 0 of \<^verbatim>\<open>null\<close> raises a TypeError when
  nothing matches.
\<close>

definition pruneVersionString :: "string \<Rightarrow> error + string" where
  "pruneVersionString version =
     (case exec versionRegex version of
        None \<Rightarrow> Inl TypeError
      | Some m \<Rightarrow> Inr m)"

section \<open>Strings and paths of the platform\<close>

text \<open>
  \<^verbatim>\<open>s.indexOf(p)\<close>: the least index at which \<open>p\<close> occurs in \<open>s\<close>; \<open>None\<close> is -1.
\<close>

primrec indexOf :: "string \<Rightarrow> string \<Rightarrow> nat option" where
  "indexOf [] p = (if p = [] then Some 0 else None)"
| "indexOf (c # cs) p =
     (if take (length p) (c # cs) = p then Some 0 else map_option Suc (indexOf cs p))"

text \<open>
  ECMAScript's GetSubstitution for a string pattern (no capture groups): in the
  replacement text \<^verbatim>\<open>$$\<close> is a dollar sign, \<^verbatim>\<open>$&\<close> the matched text, \<^verbatim>\<open>$`\<close> the text before
  the match and \<^verbatim>\<open>$'\<close> the text after it; every other character stands for itself.
\<close>

fun getSubstitution :: "string \<Rightarrow> string \<Rightarrow> string \<Rightarrow> string \<Rightarrow> string" where
  "getSubstitution matched preceding following [] = []"
| "getSubstitution matched preceding following [c] = [c]"
| "getSubstitution matched preceding following (c # d # r) =
     (if c = CHR 0x24 \<and> d = CHR 0x24 then CHR 0x24 # getSubstitution matched preceding following r
      else if c = CHR 0x24 \<and> d = CHR 0x26 then matched @ getSubstitution matched preceding following r
      else if c = CHR 0x24 \<and> d = CHR 0x60 then preceding @ getSubstitution matched preceding following r
      else if c = CHR 0x24 \<and> d = CHR 0x27 then following @ getSubstitution matched preceding following r
      else c # getSubstitution matched preceding following (d # r))"

text \<open>
  \<^verbatim>\<open>s.replace(p, r)\<close> with a string pattern: only the first occurrence of \<open>p\<close> is
  replaced; without an occurrence the value is \<open>s\<close> itself.
\<close>

definition replace :: "string \<Rightarrow> string \<Rightarrow> string \<Rightarrow> string" where
  "replace s p r =
     (case indexOf s p of
        None \<Rightarrow> s
      | Some i \<Rightarrow>
          (let preceding = take i s; following = drop (i + length p) s
           in preceding @ getSubstitution p preceding following r @ following))"

text \<open>\<^verbatim>\<open>path.sep\<close> on a POSIX platform, and \<^verbatim>\<open>s.split(sep)\<close>.\<close>

definition sep :: char where
  "sep = CHR ''/''"

primrec split :: "char \<Rightarrow> string \<Rightarrow> string list" where
  "split c [] = [[]]"
| "split c (x # xs) =
     (if x = c then [] # split c xs
      else (case split c xs of [] \<Rightarrow> [[x]] | y # ys \<Rightarrow> (x # y) # ys))"

definition isAbsolute :: "string \<Rightarrow> bool" where
  "isAbsolute p = (case p of [] \<Rightarrow> False | c # _ \<Rightarrow> c = sep)"

text \<open>
  \<^verbatim>\<open>normalizeString(path, allowAboveRoot)\<close> of Node's \<^verbatim>\<open>path\<close> module, on the segments of
  the path: empty segments and \<^verbatim>\<open>.\<close> are dropped, \<^verbatim>\<open>..\<close> removes the segment before it,
  and is kept only where \<open>allowAboveRoot\<close> holds and there is nothing to remove. The
  segments kept are held last first.
\<close>

primrec normalizeSegments :: "bool \<Rightarrow> string list \<Rightarrow> string list \<Rightarrow> string list" where
  "normalizeSegments allowAboveRoot res [] = rev res"
| "normalizeSegments allowAboveRoot res (seg # segs) =
     (if seg = [] \<or> seg = ''.'' then normalizeSegments allowAboveRoot res segs
      else if seg = ''..'' then
        (case res of
           [] \<Rightarrow> normalizeSegments allowAboveRoot (if allowAboveRoot then [''..''] else []) segs
         | lastSegment # below \<Rightarrow>
             if lastSegment = ''..''
             then normalizeSegments allowAboveRoot
                    (if allowAboveRoot then ''..'' # res else res) segs
             else normalizeSegments allowAboveRoot below segs)
      else normalizeSegments allowAboveRoot (seg # res) segs)"

primrec joinSegments :: "string list \<Rightarrow> string" where
  "joinSegments [] = []"
| "joinSegments (seg # segs) = (if segs = [] then seg else seg @ [sep] @ joinSegments segs)"

definition normalizeString :: "string \<Rightarrow> bool \<Rightarrow> string" where
  "normalizeString path allowAboveRoot =
     joinSegments (normalizeSegments allowAboveRoot [] (split sep path))"

text \<open>
  The loop of \<^verbatim>\<open>path.resolve\<close>: the arguments are read from the last to the first, then
  the working directory, until an absolute one has been prepended; empty ones are
  skipped. The list holds them in that order.
\<close>

primrec resolveLoop :: "string list \<Rightarrow> string \<Rightarrow> string \<times> bool" where
  "resolveLoop [] resolvedPath = (resolvedPath, False)"
| "resolveLoop (path # paths) resolvedPath =
     (if path = [] then resolveLoop paths resolvedPath
      else if isAbsolute path then (path @ [sep] @ resolvedPath, True)
      else resolveLoop paths (path @ [sep] @ resolvedPath))"

definition resolve :: "string \<Rightarrow> string list \<Rightarrow> string" where
  "resolve cwd args =
     (let (resolvedPath, resolvedAbsolute) = resolveLoop (rev args @ [cwd]) [];
          normalized = normalizeString resolvedPath (\<not> resolvedAbsolute)
      in if resolvedAbsolute then sep # normalized
         else if normalized \<noteq> [] then normalized else ''.'')"

section \<open>The environment of a run\<close>

text \<open>
  What the scanner reads but does not own. The file system maps an absolute path to
  what is there: a file with its text, or a directory with the names \<^verbatim>\<open>readdir\<close> lists,
  in its order. \<open>cheerio_load text selector\<close> is \<^verbatim>\<open>load(text)(selector).toArray()\<close>, each
  element given by its \<^verbatim>\<open>attribs\<close>. \<open>json_parse\<close> is \<^verbatim>\<open>JSON.parse\<close> on a manifest.
\<close>

datatype json = JString string | JObject "(string \<times> json) list"

type_synonym DependencyJson = "json IKeyValue"

type_synonym element = "string IKeyValue"

datatype fs_node = File string | Directory "string list"

record env =
  cwd :: string
  fs :: "string \<Rightarrow> fs_node option"
  cheerio_load :: "string \<Rightarrow> string \<Rightarrow> element list"
  json_parse :: "string \<Rightarrow> DependencyJson option"

text \<open>
  Calls that leave the program, in the order in which a run makes them. A function that
  reaches the environment returns them with its outcome.
\<close>

datatype effect =
    ExistsSync string
  | ReadFile string
  | CheerioLoad string
  | Readdir string
  | StatSync string
  | ReadJson string

type_synonym 'a io = "effect list \<times> (error + 'a)"

definition io_bind :: "'a io \<Rightarrow> ('a \<Rightarrow> 'b io) \<Rightarrow> 'b io" where
  "io_bind m f =
     (case m of
        (t, Inl e) \<Rightarrow> (t, Inl e)
      | (t, Inr a) \<Rightarrow> (case f a of (t', r) \<Rightarrow> (t @ t', r)))"

definition existsSync :: "env \<Rightarrow> string \<Rightarrow> bool" where
  "existsSync w p = (fs w p \<noteq> None)"

definition readFile :: "env \<Rightarrow> string \<Rightarrow> string io" where
  "readFile w p =
     ([ReadFile p],
      case fs w p of
        None \<Rightarrow> Inl (SystemError ''ENOENT'')
      | Some (Directory _) \<Rightarrow> Inl (SystemError ''EISDIR'')
      | Some (File text) \<Rightarrow> Inr text)"

definition readdir :: "env \<Rightarrow> string \<Rightarrow> string list io" where
  "readdir w p =
     ([Readdir p],
      case fs w p of
        None \<Rightarrow> Inl (SystemError ''ENOENT'')
      | Some (File _) \<Rightarrow> Inl (SystemError ''ENOTDIR'')
      | Some (Directory names) \<Rightarrow> Inr names)"

text \<open>\<^verbatim>\<open>statSync(p).isDirectory()\<close>.\<close>

definition statSync_isDirectory :: "env \<Rightarrow> string \<Rightarrow> bool io" where
  "statSync_isDirectory w p =
     ([StatSync p],
      case fs w p of
        None \<Rightarrow> Inl (SystemError ''ENOENT'')
      | Some (File _) \<Rightarrow> Inr False
      | Some (Directory _) \<Rightarrow> Inr True)"

definition readJson :: "env \<Rightarrow> string \<Rightarrow> DependencyJson io" where
  "readJson w p =
     ([ReadJson p],
      case fs w p of
        None \<Rightarrow> Inl (SystemError ''ENOENT'')
      | Some (Directory _) \<Rightarrow> Inl (SystemError ''EISDIR'')
      | Some (File text) \<Rightarrow>
          (case json_parse w text of None \<Rightarrow> Inl SyntaxError | Some j \<Rightarrow> Inr j))"

section \<open>inspection.ts\<close>

record IInspectionOptions =
  entryPath :: string
  sourceRoot :: string
  importResolutions :: "string IKeyValue"
  importTags :: "string IKeyValue"

record ImportDetails =
  tagName :: string
  attributeName :: string

record IImportDeclaration =
  importPath :: string
  importDetails :: ImportDetails

record IFileMetadata =
  filePath :: string
  importDeclarations :: "IImportDeclaration list"

definition readFileAtPath :: "env \<Rightarrow> string \<Rightarrow> string io" where
  "readFileAtPath w path =
     (if \<not> existsSync w path
      then ([ExistsSync path],
            Inl (Error (''File not found at path '' @ [CHR 0x22] @ path @ [CHR 0x22])))
      else io_bind ([ExistsSync path], Inr ()) (\<lambda>_. readFile w path))"

text \<open>
  The innermost loop of \<^verbatim>\<open>getMetadataForFile\<close>: every entry of \<^verbatim>\<open>importResolutions\<close>, in
  the order of \<^verbatim>\<open>toPairs\<close>, is applied once to the value the entries before it left.
\<close>

definition applyResolutions :: "string IKeyValue \<Rightarrow> string \<Rightarrow> string" where
  "applyResolutions resolutions attributeValue =
     fold (\<lambda>(pathPlaceholder, replacingValue) v. replace v pathPlaceholder replacingValue)
       (toPairs resolutions) attributeValue"

text \<open>
  The body of the loop over the elements: an attribute that is absent or empty is
  falsy and adds nothing.
\<close>

definition declarationsOfLink ::
  "env \<Rightarrow> IInspectionOptions \<Rightarrow> string \<Rightarrow> string \<Rightarrow> element \<Rightarrow> IImportDeclaration list" where
  "declarationsOfLink w opts tag attr link =
     (case prop_of attr link of
        None \<Rightarrow> []
      | Some attributeValue \<Rightarrow>
          if attributeValue = [] then []
          else [\<lparr>importPath =
                    resolve (cwd w)
                      [sourceRoot opts, applyResolutions (importResolutions opts) attributeValue],
                  importDetails = \<lparr>tagName = tag, attributeName = attr\<rparr>\<rparr>])"

definition getMetadataForFile :: "env \<Rightarrow> IInspectionOptions \<Rightarrow> string \<Rightarrow> IFileMetadata io" where
  "getMetadataForFile w opts path =
     io_bind (readFileAtPath w path) (\<lambda>text.
       ([CheerioLoad text],
        Inr \<lparr>filePath = path,
             importDeclarations =
               concat (map (\<lambda>(tag, attr).
                         concat (map (declarationsOfLink w opts tag attr)
                                   (cheerio_load w text tag)))
                       (toPairs (importTags opts)))\<rparr>))"

text \<open>The generator yields one pending analysis, that of the entry file.\<close>

definition inspectSourceFiles :: "env \<Rightarrow> IInspectionOptions \<Rightarrow> IFileMetadata io list" where
  "inspectSourceFiles w opts =
     [getMetadataForFile w opts (resolve (cwd w) [sourceRoot opts, entryPath opts])]"

section \<open>filesystem.ts\<close>

text \<open>
  \<^verbatim>\<open>packageManager\<close> is declared \<^verbatim>\<open>"bower" | "npm"\<close>; at run time it is whatever the caller
  put there, \<open>None\<close> when the field is absent.
\<close>

record IProjectOptions =
  projectPath :: string
  packageManager :: "string option"

type_synonym 'a DependencyReader = "string \<Rightarrow> 'a io"

definition readBowerJson :: "env \<Rightarrow> string \<Rightarrow> DependencyJson io" where
  "readBowerJson w path = readJson w (resolve (cwd w) [path, ''.bower.json''])"

definition readPackageJson :: "env \<Rightarrow> string \<Rightarrow> DependencyJson io" where
  "readPackageJson w path = readJson w (resolve (cwd w) [path, ''package.json''])"

definition readDependencyBowerJson :: "env \<Rightarrow> string \<Rightarrow> DependencyJson DependencyReader" where
  "readDependencyBowerJson w path =
     (\<lambda>dependencyName. readBowerJson w (resolve (cwd w) [path, ''bower_components'', dependencyName]))"

definition readDependencyPackageJson :: "env \<Rightarrow> string \<Rightarrow> DependencyJson DependencyReader" where
  "readDependencyPackageJson w path =
     (\<lambda>dependencyName. readPackageJson w (resolve (cwd w) [path, ''node_modules'', dependencyName]))"

text \<open>The \<^verbatim>\<open>switch\<close> throws before a reader exists; no call leaves the program.\<close>

definition readDependenciesJson ::
  "env \<Rightarrow> IProjectOptions \<Rightarrow> error + DependencyJson DependencyReader" where
  "readDependenciesJson w opts =
     (if packageManager opts = Some ''bower'' then Inr (readDependencyBowerJson w (projectPath opts))
      else if packageManager opts = Some ''npm'' then Inr (readDependencyPackageJson w (projectPath opts))
      else Inl (Error ''A 'packageManager' must be supplied''))"

definition listDirectoryContents :: "env \<Rightarrow> string \<Rightarrow> string list io" where
  "listDirectoryContents w directoryPath =
     io_bind (readdir w directoryPath) (\<lambda>names.
       ([], Inr (map (\<lambda>name. resolve (cwd w) [directoryPath, name]) names)))"

text \<open>
  \<^verbatim>\<open>paths.filter((item) => statSync(item).isDirectory())\<close>: the first \<^verbatim>\<open>statSync\<close> that throws
  ends the filter.
\<close>

primrec extractFoldersSync :: "env \<Rightarrow> string list \<Rightarrow> string list io" where
  "extractFoldersSync w [] = ([], Inr [])"
| "extractFoldersSync w (item # items) =
     io_bind (statSync_isDirectory w item) (\<lambda>isDir.
       io_bind (extractFoldersSync w items) (\<lambda>folders.
         ([], Inr (if isDir then item # folders else folders))))"

text \<open>\<^verbatim>\<open>pipe(split(sep), last)\<close>; \<^verbatim>\<open>split\<close> never gives an empty list.\<close>

definition extractPathEndingsSync :: "string list \<Rightarrow> string list" where
  "extractPathEndingsSync paths = map (\<lambda>path. last (split sep path)) paths"

text \<open>\<^verbatim>\<open>filter(test(/^\w/), filenames)\<close>.\<close>

definition filterDotFiles :: "string list \<Rightarrow> string list" where
  "filterDotFiles filenames = filter (test (Seq Bol WordChar)) filenames"

definition extractFolderNamesSync :: "env \<Rightarrow> string list \<Rightarrow> string list io" where
  "extractFolderNamesSync w paths =
     io_bind (extractFoldersSync w paths) (\<lambda>folders.
       ([], Inr (filterDotFiles (extractPathEndingsSync folders))))"

text \<open>
  The file holds two copies of \<^verbatim>\<open>listInstalledDependencies\<close> with the same \<^verbatim>\<open>switch\<close>; the
  older one is declared \<^verbatim>\<open>async\<close>, which hands the same error over as a rejected promise.
\<close>

definition listInstalledDependencies :: "env \<Rightarrow> IProjectOptions \<Rightarrow> string list io" where
  "listInstalledDependencies w opts =
     (if packageManager opts = Some ''bower''
      then io_bind (listDirectoryContents w (resolve (cwd w) [projectPath opts, ''bower_components'']))
             (extractFolderNamesSync w)
      else if packageManager opts = Some ''npm''
      then io_bind (listDirectoryContents w (resolve (cwd w) [projectPath opts, ''node_modules'']))
             (extractFolderNamesSync w)
      else ([], Inl (Error ''A 'packageManager' must be supplied'')))"

section \<open>The dependency graph of the graph package\<close>

record IDependencyMetadata =
  name :: "json option"
  version :: "json option"

text \<open>
  Modelled from the spec: the class \<^verbatim>\<open>DependencyGraph\<close> comes from the package
  \<^verbatim>\<open>@ctek/wcm-graph\<close>, whose code is not among the sources. A node is keyed by its
  identity (name, version), and is real, owning its manifest, or implied, owning only
  its identity. The nodes are kept in the order of their registration, with one node
  for a key.
\<close>

record DependencyNode =
  metadata :: IDependencyMetadata
  manifest :: "DependencyJson option"

record DependencyGraph =
  nodes :: "DependencyNode list"
  interDependencies :: "(IDependencyMetadata \<times> IDependencyMetadata) list"

definition emptyGraph :: DependencyGraph where
  "emptyGraph = \<lparr>nodes = [], interDependencies = []\<rparr>"

definition hasNode :: "DependencyGraph \<Rightarrow> IDependencyMetadata \<Rightarrow> bool" where
  "hasNode g key = (key \<in> set (map metadata (nodes g)))"

text \<open>
  Modelled from the spec: registering a real node stores the manifest under the
  identity; an identity registered before keeps its place and takes the new manifest.
\<close>

definition addRealDependency ::
  "IDependencyMetadata \<Rightarrow> DependencyJson \<Rightarrow> DependencyGraph \<Rightarrow> DependencyGraph" where
  "addRealDependency key dependencyJson g =
     (if hasNode g key
      then g\<lparr>nodes := map (\<lambda>n. if metadata n = key then n\<lparr>manifest := Some dependencyJson\<rparr> else n)
                         (nodes g)\<rparr>
      else g\<lparr>nodes := nodes g @ [\<lparr>metadata = key, manifest = Some dependencyJson\<rparr>]\<rparr>)"

text \<open>
  Modelled from the spec: a request for an implied node whose identity is registered
  adds nothing (repeated implied requests for the same pair must not duplicate the
  node).
\<close>

definition addImpliedDependency :: "IDependencyMetadata \<Rightarrow> DependencyGraph \<Rightarrow> DependencyGraph" where
  "addImpliedDependency key g =
     (if hasNode g key then g
      else g\<lparr>nodes := nodes g @ [\<lparr>metadata = key, manifest = None\<rparr>]\<rparr>)"

text \<open>
  Modelled from the spec: the alias set of a name is the versions registered as real
  nodes under that name.
\<close>

definition getDependencyAliases :: "DependencyGraph \<Rightarrow> string \<Rightarrow> json option list" where
  "getDependencyAliases g dependencyName =
     map (\<lambda>n. version (metadata n))
       (filter (\<lambda>n. manifest n \<noteq> None \<and> name (metadata n) = Some (JString dependencyName))
          (nodes g))"

text \<open>Modelled from the spec: the registered nodes, real and implied, by their keys.\<close>

definition listDependencies :: "DependencyGraph \<Rightarrow> IDependencyMetadata list" where
  "listDependencies g = map metadata (nodes g)"

text \<open>
  Modelled from the spec: the data of a real node is its manifest; an implied node has
  no manifest and declares no dependencies.
\<close>

definition getDependencyData :: "DependencyGraph \<Rightarrow> IDependencyMetadata \<Rightarrow> DependencyJson" where
  "getDependencyData g key =
     (case find (\<lambda>n. metadata n = key) (nodes g) of
        None \<Rightarrow> []
      | Some n \<Rightarrow> (case manifest n of None \<Rightarrow> [] | Some dependencyJson \<Rightarrow> dependencyJson))"

text \<open>Modelled from the spec: a directed edge from a node to an identity.\<close>

definition createInterDependency ::
  "IDependencyMetadata \<Rightarrow> IDependencyMetadata \<Rightarrow> DependencyGraph \<Rightarrow> DependencyGraph" where
  "createInterDependency key target g =
     g\<lparr>interDependencies := interDependencies g @ [(key, target)]\<rparr>"

section \<open>scanner.ts\<close>

definition getDependencyMetadata :: "DependencyJson \<Rightarrow> IDependencyMetadata" where
  "getDependencyMetadata dependencyJson =
     \<lparr>name = prop_of ''name'' dependencyJson,
      version = firstDefinedProperty [''version'', ''_release''] dependencyJson\<rparr>"

text \<open>
  \<^verbatim>\<open>toPairs(prop("dependencies", dependencyJson))\<close>. \<^verbatim>\<open>toPairs\<close> of \<^verbatim>\<open>undefined\<close> is the empty
  list. The field is declared an object of strings; a manifest that holds a string
  there is outside the declared type and is given no pairs.
\<close>

definition getDependencyPairs :: "DependencyJson \<Rightarrow> (string \<times> json) list" where
  "getDependencyPairs dependencyJson =
     (case prop_of ''dependencies'' dependencyJson of
        Some (JObject dependencies) \<Rightarrow> toPairs dependencies
      | _ \<Rightarrow> [])"

definition getAllDependencyPairs :: "DependencyGraph \<Rightarrow> (string \<times> json) list" where
  "getAllDependencyPairs g =
     unnest (map (\<lambda>dependencyName. getDependencyPairs (getDependencyData g dependencyName))
               (listDependencies g))"

text \<open>
  The body of the loop of \<^verbatim>\<open>registerImpliedDependencies\<close>: the alias test reads the graph
  as the turns before it left it.
\<close>

definition impliedStep :: "string \<times> json \<Rightarrow> DependencyGraph \<Rightarrow> DependencyGraph" where
  "impliedStep =
     (\<lambda>(dependencyName, dependencyVersion) graph.
        if \<not> contains (Some dependencyVersion) (getDependencyAliases graph dependencyName)
        then addImpliedDependency
               \<lparr>name = Some (JString dependencyName), version = Some dependencyVersion\<rparr> graph
        else graph)"

text \<open>The pairs are computed once, before the loop.\<close>

definition registerImpliedDependencies :: "DependencyGraph \<Rightarrow> DependencyGraph" where
  "registerImpliedDependencies g = fold impliedStep (getAllDependencyPairs g) g"

text \<open>
  \<^verbatim>\<open>Promise.all\<close> over the reads: every read is issued; the outcome is the list of the
  manifests, or the error of a read that failed (here the first one in the list).
\<close>

primrec promiseAll :: "'a io list \<Rightarrow> 'a list io" where
  "promiseAll [] = ([], Inr [])"
| "promiseAll (m # ms) =
     (case (m, promiseAll ms) of
        ((t, Inl e), (t', _)) \<Rightarrow> (t @ t', Inl e)
      | ((t, Inr a), (t', Inl e)) \<Rightarrow> (t @ t', Inl e)
      | ((t, Inr a), (t', Inr as)) \<Rightarrow> (t @ t', Inr (a # as)))"

definition readInstalledDependenciesJson :: "env \<Rightarrow> IProjectOptions \<Rightarrow> DependencyJson list io" where
  "readInstalledDependenciesJson w opts =
     io_bind (listInstalledDependencies w opts) (\<lambda>installed.
       case readDependenciesJson w opts of
         Inl e \<Rightarrow> ([], Inl e)
       | Inr reader \<Rightarrow> promiseAll (map reader installed))"

text \<open>
  The loop of \<^verbatim>\<open>registerDeclaredDependencies\<close> over the manifests that were read.
\<close>

definition registerManifests :: "DependencyJson list \<Rightarrow> DependencyGraph \<Rightarrow> DependencyGraph" where
  "registerManifests dependencyJsons g =
     fold (\<lambda>dependencyJson. addRealDependency (getDependencyMetadata dependencyJson) dependencyJson)
       dependencyJsons g"

definition registerDeclaredDependencies ::
  "env \<Rightarrow> IProjectOptions \<Rightarrow> DependencyGraph \<Rightarrow> DependencyGraph io" where
  "registerDeclaredDependencies w opts g =
     io_bind (readInstalledDependenciesJson w opts) (\<lambda>dependencyJsons.
       ([], Inr (registerManifests dependencyJsons g)))"

text \<open>
  The loop of \<^verbatim>\<open>generateDependencyGraph\<close> that links every registered node to the pairs
  of \<^verbatim>\<open>toPairs(dependencyData.dependencies)\<close>.
\<close>

definition linkDependencies :: "DependencyGraph \<Rightarrow> DependencyGraph" where
  "linkDependencies g =
     fold (\<lambda>dependencyName graph.
             fold (\<lambda>(n, v). createInterDependency dependencyName
                               \<lparr>name = Some (JString n), version = Some v\<rparr>)
               (getDependencyPairs (getDependencyData graph dependencyName)) graph)
       (listDependencies g) g"

definition generateDependencyGraph :: "env \<Rightarrow> IProjectOptions \<Rightarrow> DependencyGraph io" where
  "generateDependencyGraph w opts =
     io_bind (registerDeclaredDependencies w opts emptyGraph) (\<lambda>g.
       ([], Inr (linkDependencies (registerImpliedDependencies g))))"

section \<open>What the specification says, and worked inputs\<close>

text \<open>
  The directory enumerator in the words of the specification: the child names that are
  directories and begin with a word character, in the order of the listing.
\<close>

definition spec_enumerate :: "env \<Rightarrow> string \<Rightarrow> string list \<Rightarrow> string list" where
  "spec_enumerate w directoryPath names =
     filter (\<lambda>n. (case fs w (resolve (cwd w) [directoryPath, n]) of
                     Some (Directory _) \<Rightarrow> True
                   | _ \<Rightarrow> False)
                \<and> (case n of [] \<Rightarrow> False | c # _ \<Rightarrow> isWordChar c))
       names"

text \<open>
  A name that \<^verbatim>\<open>readdir\<close> can list: not empty, without a separator, and neither \<^verbatim>\<open>.\<close> nor
  \<^verbatim>\<open>..\<close>.
\<close>

definition isEntryName :: "string \<Rightarrow> bool" where
  "isEntryName n = (n \<noteq> [] \<and> sep \<notin> set n \<and> n \<noteq> ''.'' \<and> n \<noteq> ''..'')"

text \<open>
  Three manifests: A and C both declare B at the range \<^verbatim>\<open>^2.0.0\<close>, and B is installed at
  2.3.1. C carries its version under \<^verbatim>\<open>_release\<close>.
\<close>

definition manifestA :: DependencyJson where
  "manifestA = [(''name'', JString ''A''), (''version'', JString ''1.0.0''),
                (''dependencies'', JObject [(''B'', JString ''^2.0.0'')])]"

definition manifestB :: DependencyJson where
  "manifestB = [(''name'', JString ''B''), (''version'', JString ''2.3.1'')]"

definition manifestC :: DependencyJson where
  "manifestC = [(''name'', JString ''C''), (''_release'', JString ''0.1.0''),
                (''dependencies'', JObject [(''B'', JString ''^2.0.0''), (''A'', JString ''1.0.0'')])]"

text \<open>
  A project whose \<^verbatim>\<open>bower_components\<close> directory lists \<^verbatim>\<open>.git\<close>, \<^verbatim>\<open>lodash\<close> and \<^verbatim>\<open>left-pad\<close>,
  each of them a directory.
\<close>

definition bowerProject :: env where
  "bowerProject =
     \<lparr>cwd = ''/home/user'',
      fs = (\<lambda>p. if p = ''/proj/bower_components''
                 then Some (Directory [''.git'', ''lodash'', ''left-pad''])
                 else if p = ''/proj/bower_components/.git'' \<or> p = ''/proj/bower_components/lodash''
                           \<or> p = ''/proj/bower_components/left-pad''
                 then Some (Directory [])
                 else None),
      cheerio_load = (\<lambda>text selector. []),
      json_parse = (\<lambda>text. None)\<rparr>"

text \<open>
  A project whose \<^verbatim>\<open>bower_components\<close> directory lists \<^verbatim>\<open>alpha\<close>, \<^verbatim>\<open>broken\<close> and \<^verbatim>\<open>zeta\<close>:
  \<^verbatim>\<open>alpha\<close> and \<^verbatim>\<open>zeta\<close> are directories, and nothing can be examined at \<^verbatim>\<open>broken\<close> (a link
  whose target is gone).
\<close>

definition danglingProject :: env where
  "danglingProject =
     \<lparr>cwd = ''/home/user'',
      fs = (\<lambda>p. if p = ''/proj/bower_components''
                 then Some (Directory [''alpha'', ''broken'', ''zeta''])
                 else if p = ''/proj/bower_components/alpha'' \<or> p = ''/proj/bower_components/zeta''
                 then Some (Directory [])
                 else None),
      cheerio_load = (\<lambda>text selector. []),
      json_parse = (\<lambda>text. None)\<rparr>"

text \<open>
  A page with one \<^verbatim>\<open>link\<close> to \<^verbatim>\<open>/views/home.html\<close>, inspected with the resolutions and tags of
  the call at the end of scanner.ts.
\<close>

definition viewsPage :: env where
  "viewsPage =
     \<lparr>cwd = ''/home/user'',
      fs = (\<lambda>p. if p = ''/proj/public/index.html'' then Some (File ''<link>'') else None),
      cheerio_load = (\<lambda>text selector.
         if selector = ''link'' then [[(''rel'', ''import''), (''href'', ''/views/home.html'')]]
         else []),
      json_parse = (\<lambda>text. None)\<rparr>"

definition viewsOptions :: IInspectionOptions where
  "viewsOptions =
     \<lparr>entryPath = ''index.html'', sourceRoot = ''/proj/public'',
      importResolutions =
        [(''/bower_components'', ''../../bower_components''), (''/views'', ''views'')],
      importTags = [(''app-route'', ''import''), (''link'', ''href''), (''script'', ''src'')]\<rparr>"

section \<open>Properties\<close>

subsection \<open>Version extraction and version strings\<close>

lemma two_keys_length:
  assumes "a \<in> set xs" "b \<in> set xs" "a \<noteq> b"
  shows "2 \<le> length xs"
proof -
  have "{a, b} \<subseteq> set xs" using assms by simp
  then have "card {a, b} \<le> card (set xs)" by (intro card_mono) simp_all
  also have "\<dots> \<le> length xs" by (rule card_length)
  finally show ?thesis using assms(3) by simp
qed

lemma prop_of_in_keys: "prop_of k obj = Some v \<Longrightarrow> k \<in> set (keys obj)"
  by (auto simp: prop_of_def keys_def dest: map_of_SomeD intro: rev_image_eqI)

text \<open>
  C2. A manifest that has both a \<^verbatim>\<open>version\<close> and a \<^verbatim>\<open>_release\<close> field resolves to the value
  of \<^verbatim>\<open>version\<close>, wherever the two keys stand in the manifest: with both present the object
  has at least two keys, so \<^verbatim>\<open>intersection\<close> filters the list of properties and keeps its
  order.
\<close>

theorem version_before_release:
  assumes "prop_of ''version'' m = Some v" and "prop_of ''_release'' m = Some r"
  shows "firstDefinedProperty [''version'', ''_release''] m = Some v
       \<and> version (getDependencyMetadata m) = Some v"
proof -
  have kv: "''version'' \<in> set (keys m)" and kr: "''_release'' \<in> set (keys m)"
    using assms by (auto dest: prop_of_in_keys)
  then have "2 \<le> length (keys m)" by (intro two_keys_length[of "''version''" _ "''_release''"]) simp_all
  then have "intersection [''version'', ''_release''] (keys m) = [''version'', ''_release'']"
    using kv kr by (simp add: intersection_def uniq_def)
  then have "firstDefinedProperty [''version'', ''_release''] m = Some v"
    using assms(1) by (simp add: firstDefinedProperty_def head_def)
  then show ?thesis by (simp add: getDependencyMetadata_def)
qed

theorem version_before_release_witness:
  "version (getDependencyMetadata
     [(''name'', JString ''x-elem''), (''_release'', JString ''1.0.0-release''),
      (''version'', JString ''1.0.0'')]) = Some (JString ''1.0.0'')
   \<and> version (getDependencyMetadata
     [(''name'', JString ''x-elem''), (''version'', JString ''1.0.0''),
      (''_release'', JString ''1.0.0-release'')]) = Some (JString ''1.0.0'')"
  using version_before_release
      [of "[(''name'', JString ''x-elem''), (''_release'', JString ''1.0.0-release''),
            (''version'', JString ''1.0.0'')]" "JString ''1.0.0''" "JString ''1.0.0-release''"]
    version_before_release
      [of "[(''name'', JString ''x-elem''), (''version'', JString ''1.0.0''),
            (''_release'', JString ''1.0.0-release'')]" "JString ''1.0.0''" "JString ''1.0.0-release''"]
  by (simp add: prop_of_def)

text \<open>
  C3 as stated fails: the optional group of range operators is part of the match, and
  element 0 of the result is the whole match, so \<^verbatim>\<open>^1.2.3\<close> is not turned into \<^verbatim>\<open>1.2.3\<close>.
\<close>

theorem pruneVersionString_strips_operator_counterexample:
  "\<not> (pruneVersionString ''^1.2.3'' = Inr ''1.2.3''
      \<and> pruneVersionString ''~2.0'' = Inr ''2.0''
      \<and> pruneVersionString ''*'' = Inr ''*'')"
  by (simp add: pruneVersionString_def exec_def versionRegex_def rangeOperator_def rx_char_def
        isDigit_def isLineTerminator_def)

text \<open>
  C3, amended. Applied to \<^verbatim>\<open>^1.2.3\<close> the function returns \<^verbatim>\<open>^1.2.3\<close>, applied to \<^verbatim>\<open>~2.0\<close> it
  returns \<^verbatim>\<open>~2.0\<close>, and applied to \<^verbatim>\<open>*\<close> it returns \<^verbatim>\<open>*\<close>: on these inputs the range
  operator is not stripped.
\<close>

theorem pruneVersionString_keeps_operator:
  "pruneVersionString ''^1.2.3'' = Inr ''^1.2.3''
   \<and> pruneVersionString ''~2.0'' = Inr ''~2.0''
   \<and> pruneVersionString ''*'' = Inr ''*''"
  by (simp add: pruneVersionString_def exec_def versionRegex_def rangeOperator_def rx_char_def
        isDigit_def isLineTerminator_def)

text \<open>
  Further values, outside the three inputs of C3. Each component of the expression is
  one digit followed by any character, so a version with a longer component loses its
  front, operator included; a string without a final digit or a star makes the function
  throw.
\<close>

lemma pruneVersionString_examples:
  "pruneVersionString ''Polymer/polymer#^1.2.3'' = Inr ''^1.2.3''"
  "pruneVersionString ''v1.2.3'' = Inr ''1.2.3''"
  "pruneVersionString ''^10.2.3'' = Inr ''0.2.3''"
  "pruneVersionString ''^12'' = Inr ''2''"
  "pruneVersionString ''latest'' = Inl TypeError"
  by (simp_all add: pruneVersionString_def exec_def versionRegex_def rangeOperator_def rx_char_def
        isDigit_def isLineTerminator_def)

subsection \<open>Inspecting the entry file\<close>

lemma resolveLoop_absolute:
  "isAbsolute wd \<Longrightarrow> snd (resolveLoop (paths @ [wd]) acc)"
  by (induction paths arbitrary: acc) (auto simp: isAbsolute_def split: list.splits)

lemma resolve_isAbsolute: "isAbsolute wd \<Longrightarrow> isAbsolute (resolve wd args)"
  using resolveLoop_absolute[of wd "rev args" "[]"]
  by (auto simp: resolve_def isAbsolute_def split: prod.splits)

text \<open>
  C7. When nothing exists at the resolved entry path, the one pending analysis fails with
  the error \<^verbatim>\<open>File not found at path "..."\<close>; the only call made is \<^verbatim>\<open>existsSync\<close>, so the file is
  neither read nor parsed, and no metadata is produced.
\<close>

theorem missing_entry_file:
  assumes "fs w (resolve (cwd w) [sourceRoot opts, entryPath opts]) = None"
  shows "inspectSourceFiles w opts =
           [([ExistsSync (resolve (cwd w) [sourceRoot opts, entryPath opts])],
             Inl (Error (''File not found at path '' @ [CHR 0x22]
                           @ resolve (cwd w) [sourceRoot opts, entryPath opts] @ [CHR 0x22])))]"
  using assms
  by (simp add: inspectSourceFiles_def getMetadataForFile_def readFileAtPath_def existsSync_def
        io_bind_def)

theorem missing_entry_file_witness:
  "inspectSourceFiles
     \<lparr>cwd = ''/home/user'', fs = (\<lambda>p. None), cheerio_load = (\<lambda>text selector. []),
      json_parse = (\<lambda>text. None)\<rparr>
     \<lparr>entryPath = ''index.html'', sourceRoot = ''/proj/build/public'',
      importResolutions = [], importTags = [(''link'', ''href'')]\<rparr>
   = [([ExistsSync ''/proj/build/public/index.html''],
       Inl (Error (''File not found at path '' @ [CHR 0x22] @ ''/proj/build/public/index.html''
                     @ [CHR 0x22])))]"
  using missing_entry_file
    [of "\<lparr>cwd = ''/home/user'', fs = (\<lambda>p. None), cheerio_load = (\<lambda>text selector. []),
           json_parse = (\<lambda>text. None)\<rparr>"
        "\<lparr>entryPath = ''index.html'', sourceRoot = ''/proj/build/public'',
           importResolutions = [], importTags = [(''link'', ''href'')]\<rparr>"]
  by (simp add: resolve_def isAbsolute_def sep_def normalizeString_def)

text \<open>
  C5. An entry file whose markup has the single element
  \<^verbatim>\<open><link rel="import" href="/bower_components/x-elem/x-elem.html">\<close>, inspected with the tag
  \<^verbatim>\<open>link\<close> mapped to \<^verbatim>\<open>href\<close>, \<^verbatim>\<open>/bower_components\<close> resolved to \<^verbatim>\<open>../../bower_components\<close> and
  the source root \<^verbatim>\<open>/proj/build/public\<close>, yields exactly one import declaration, whose path
  is \<^verbatim>\<open>/proj/bower_components/x-elem/x-elem.html\<close>, the resolution of
  \<^verbatim>\<open>/proj/build/public/../../bower_components/x-elem/x-elem.html\<close>.
\<close>

theorem import_resolution_end_to_end:
  assumes "fs w (resolve (cwd w) [''/proj/build/public'', entry]) = Some (File text)"
    and "cheerio_load w text ''link'' =
           [[(''rel'', ''import''), (''href'', ''/bower_components/x-elem/x-elem.html'')]]"
  shows "inspectSourceFiles w
           \<lparr>entryPath = entry, sourceRoot = ''/proj/build/public'',
            importResolutions = [(''/bower_components'', ''../../bower_components'')],
            importTags = [(''link'', ''href'')]\<rparr>
         = [([ExistsSync (resolve (cwd w) [''/proj/build/public'', entry]),
              ReadFile (resolve (cwd w) [''/proj/build/public'', entry]),
              CheerioLoad text],
             Inr \<lparr>filePath = resolve (cwd w) [''/proj/build/public'', entry],
                  importDeclarations =
                    [\<lparr>importPath = ''/proj/bower_components/x-elem/x-elem.html'',
                      importDetails = \<lparr>tagName = ''link'', attributeName = ''href''\<rparr>\<rparr>]\<rparr>)]
       \<and> resolve (cwd w) [''/proj/build/public/../../bower_components/x-elem/x-elem.html'']
           = ''/proj/bower_components/x-elem/x-elem.html''"
proof -
  have sub: "applyResolutions [(''/bower_components'', ''../../bower_components'')]
               ''/bower_components/x-elem/x-elem.html''
             = ''../../bower_components/x-elem/x-elem.html''"
    by (simp add: applyResolutions_def toPairs_def replace_def)
  have res: "resolve (cwd w) [''/proj/build/public'', ''../../bower_components/x-elem/x-elem.html'']
             = ''/proj/bower_components/x-elem/x-elem.html''"
    by (simp add: resolve_def isAbsolute_def sep_def normalizeString_def)
  have res2: "resolve (cwd w) [''/proj/build/public/../../bower_components/x-elem/x-elem.html'']
             = ''/proj/bower_components/x-elem/x-elem.html''"
    by (simp add: resolve_def isAbsolute_def sep_def normalizeString_def)
  show ?thesis
    using assms sub res res2
    by (simp add: inspectSourceFiles_def getMetadataForFile_def readFileAtPath_def existsSync_def
          readFile_def io_bind_def toPairs_def declarationsOfLink_def prop_of_def)
qed

theorem import_resolution_end_to_end_witness:
  "inspectSourceFiles
     \<lparr>cwd = ''/home/user'',
      fs = (\<lambda>p. if p = ''/proj/build/public/index.html'' then Some (File ''<link>'') else None),
      cheerio_load = (\<lambda>text selector.
         if selector = ''link''
         then [[(''rel'', ''import''), (''href'', ''/bower_components/x-elem/x-elem.html'')]]
         else []),
      json_parse = (\<lambda>text. None)\<rparr>
     \<lparr>entryPath = ''index.html'', sourceRoot = ''/proj/build/public'',
      importResolutions = [(''/bower_components'', ''../../bower_components'')],
      importTags = [(''link'', ''href'')]\<rparr>
   = [([ExistsSync ''/proj/build/public/index.html'', ReadFile ''/proj/build/public/index.html'',
        CheerioLoad ''<link>''],
       Inr \<lparr>filePath = ''/proj/build/public/index.html'',
            importDeclarations =
              [\<lparr>importPath = ''/proj/bower_components/x-elem/x-elem.html'',
                importDetails = \<lparr>tagName = ''link'', attributeName = ''href''\<rparr>\<rparr>]\<rparr>)]"
proof -
  have r: "resolve ''/home/user'' [''/proj/build/public'', ''index.html'']
           = ''/proj/build/public/index.html''"
    by (simp add: resolve_def isAbsolute_def sep_def normalizeString_def)
  show ?thesis
    using import_resolution_end_to_end
      [of "\<lparr>cwd = ''/home/user'',
             fs = (\<lambda>p. if p = ''/proj/build/public/index.html'' then Some (File ''<link>'') else None),
             cheerio_load = (\<lambda>text selector.
               if selector = ''link''
               then [[(''rel'', ''import''), (''href'', ''/bower_components/x-elem/x-elem.html'')]]
               else []),
             json_parse = (\<lambda>text. None)\<rparr>" "''index.html''" "''<link>''"]
    by (simp add: r)
qed

lemma declarationsOfLink_cases:
  assumes "d \<in> set (declarationsOfLink w opts tag attr link)"
  shows "\<exists>v. prop_of attr link = Some v \<and> v \<noteq> []
           \<and> d = \<lparr>importPath = resolve (cwd w)
                                 [sourceRoot opts, applyResolutions (importResolutions opts) v],
                   importDetails = \<lparr>tagName = tag, attributeName = attr\<rparr>\<rparr>"
  using assms by (cases "prop_of attr link") (auto simp: declarationsOfLink_def split: if_splits)

text \<open>
  C4, amended. Every import declaration of the metadata of an inspected file comes from
  a non-empty attribute value of an element selected for one of the configured tags,
  and its path is that value after the substitutions, resolved against the source
  root; with an absolute working directory the path is absolute. Nothing is said about
  placeholders in the path.
\<close>

theorem importPath_resolved_absolute:
  assumes "isAbsolute (cwd w)"
    and "getMetadataForFile w opts path = (t, Inr md)"
    and "d \<in> set (importDeclarations md)"
  shows "isAbsolute (importPath d)
       \<and> (\<exists>text tag attr link v.
             fs w path = Some (File text)
           \<and> (tag, attr) \<in> set (toPairs (importTags opts))
           \<and> link \<in> set (cheerio_load w text tag)
           \<and> prop_of attr link = Some v \<and> v \<noteq> []
           \<and> d = \<lparr>importPath = resolve (cwd w)
                                 [sourceRoot opts, applyResolutions (importResolutions opts) v],
                   importDetails = \<lparr>tagName = tag, attributeName = attr\<rparr>\<rparr>)"
proof -
  from assms(2) obtain body where body: "fs w path = Some (File body)"
    and md: "md = \<lparr>filePath = path,
                   importDeclarations =
                     concat (map (\<lambda>(tag, attr).
                               concat (map (declarationsOfLink w opts tag attr)
                                         (cheerio_load w body tag)))
                             (toPairs (importTags opts)))\<rparr>"
    by (auto simp: getMetadataForFile_def readFileAtPath_def readFile_def io_bind_def
          existsSync_def split: if_splits option.splits fs_node.splits)
  from assms(3) md obtain tag attr link
    where pair: "(tag, attr) \<in> set (toPairs (importTags opts))"
      and link: "link \<in> set (cheerio_load w body tag)"
      and d: "d \<in> set (declarationsOfLink w opts tag attr link)"
    by auto
  from declarationsOfLink_cases[OF d] obtain v
    where v: "prop_of attr link = Some v" "v \<noteq> []"
      and deq: "d = \<lparr>importPath = resolve (cwd w)
                                 [sourceRoot opts, applyResolutions (importResolutions opts) v],
                      importDetails = \<lparr>tagName = tag, attributeName = attr\<rparr>\<rparr>"
    by blast
  have "isAbsolute (importPath d)"
    using deq resolve_isAbsolute[OF assms(1)] by simp
  then show ?thesis using body pair link v deq by blast
qed

text \<open>
  C4 as stated fails where it says that the path holds no placeholder: with the
  resolutions of the call in scanner.ts, \<^verbatim>\<open>/views/home.html\<close> becomes \<^verbatim>\<open>views/home.html\<close>, and
  resolved against \<^verbatim>\<open>/proj/public\<close> the path holds the placeholder \<^verbatim>\<open>/views\<close> again.
\<close>

lemma viewsPage_metadata:
  "getMetadataForFile viewsPage viewsOptions ''/proj/public/index.html''
   = ([ExistsSync ''/proj/public/index.html'', ReadFile ''/proj/public/index.html'',
       CheerioLoad ''<link>''],
      Inr \<lparr>filePath = ''/proj/public/index.html'',
           importDeclarations =
             [\<lparr>importPath = ''/proj/public/views/home.html'',
               importDetails = \<lparr>tagName = ''link'', attributeName = ''href''\<rparr>\<rparr>]\<rparr>)"
proof -
  have sub: "applyResolutions
               [(''/bower_components'', ''../../bower_components''), (''/views'', ''views'')]
               ''/views/home.html'' = ''views/home.html''"
    by (simp add: applyResolutions_def toPairs_def replace_def)
  have res: "resolve ''/home/user'' [''/proj/public'', ''views/home.html'']
             = ''/proj/public/views/home.html''"
    by (simp add: resolve_def isAbsolute_def sep_def normalizeString_def)
  show ?thesis
    using sub res
    by (simp add: viewsPage_def viewsOptions_def getMetadataForFile_def readFileAtPath_def
          existsSync_def readFile_def io_bind_def toPairs_def declarationsOfLink_def prop_of_def)
qed

theorem importPath_placeholder_free_counterexample:
  "snd (getMetadataForFile viewsPage viewsOptions ''/proj/public/index.html'')
     = Inr \<lparr>filePath = ''/proj/public/index.html'',
            importDeclarations =
              [\<lparr>importPath = ''/proj/public/views/home.html'',
                importDetails = \<lparr>tagName = ''link'', attributeName = ''href''\<rparr>\<rparr>]\<rparr>
   \<and> ''/views'' \<in> set (keys (importResolutions viewsOptions))
   \<and> indexOf ''/proj/public/views/home.html'' ''/views'' = Some 12"
  by (simp add: viewsPage_metadata) (simp add: viewsOptions_def keys_def)

theorem importPath_resolved_absolute_witness:
  "isAbsolute (cwd viewsPage)
   \<and> isAbsolute ''/proj/public/views/home.html''
   \<and> prop_of ''href'' [(''rel'', ''import''), (''href'', ''/views/home.html'')]
       = Some ''/views/home.html''
   \<and> resolve (cwd viewsPage)
        [sourceRoot viewsOptions,
         applyResolutions (importResolutions viewsOptions) ''/views/home.html'']
       = ''/proj/public/views/home.html''"
proof -
  let ?d = "\<lparr>importPath = ''/proj/public/views/home.html'',
              importDetails = \<lparr>tagName = ''link'', attributeName = ''href''\<rparr>\<rparr>"
  let ?md = "\<lparr>filePath = ''/proj/public/index.html'', importDeclarations = [?d]\<rparr>"
  have a: "isAbsolute (cwd viewsPage)" by (simp add: viewsPage_def isAbsolute_def sep_def)
  have m: "getMetadataForFile viewsPage viewsOptions ''/proj/public/index.html''
           = ([ExistsSync ''/proj/public/index.html'', ReadFile ''/proj/public/index.html'',
               CheerioLoad ''<link>''], Inr ?md)"
    by (rule viewsPage_metadata)
  have d: "?d \<in> set (importDeclarations ?md)" by simp
  from importPath_resolved_absolute[OF a m d]
  obtain body tag attr link v where
    abs: "isAbsolute (importPath ?d)"
    and f: "fs viewsPage ''/proj/public/index.html'' = Some (File body)"
    and l: "link \<in> set (cheerio_load viewsPage body tag)"
    and v: "prop_of attr link = Some v"
    and e: "?d = \<lparr>importPath = resolve (cwd viewsPage)
                                 [sourceRoot viewsOptions,
                                  applyResolutions (importResolutions viewsOptions) v],
                     importDetails = \<lparr>tagName = tag, attributeName = attr\<rparr>\<rparr>"
    by blast
  from e have tag: "tag = ''link''" and attr: "attr = ''href''" by simp_all
  from l tag have link: "link = [(''rel'', ''import''), (''href'', ''/views/home.html'')]"
    by (simp add: viewsPage_def)
  from v attr link have vv: "v = ''/views/home.html''" by (simp add: prop_of_def)
  from e vv have "resolve (cwd viewsPage)
        [sourceRoot viewsOptions,
         applyResolutions (importResolutions viewsOptions) ''/views/home.html'']
       = ''/proj/public/views/home.html''" by simp
  then show ?thesis using a abs v attr link vv by simp
qed





subsection \<open>The package manager\<close>

text \<open>
  C8. With a package manager that is neither \<^verbatim>\<open>bower\<close> nor \<^verbatim>\<open>npm\<close>, listing the installed
  dependencies and obtaining a manifest reader both fail with the error
  \<^verbatim>\<open>A 'packageManager' must be supplied\<close>; no call reaches the file system, and the
  construction of the graph fails with the same error.
\<close>

theorem unknown_packageManager:
  assumes "packageManager opts \<noteq> Some ''bower''" and "packageManager opts \<noteq> Some ''npm''"
  shows "listInstalledDependencies w opts = ([], Inl (Error ''A 'packageManager' must be supplied''))
       \<and> readDependenciesJson w opts = Inl (Error ''A 'packageManager' must be supplied'')
       \<and> generateDependencyGraph w opts = ([], Inl (Error ''A 'packageManager' must be supplied''))"
  using assms
  by (simp add: listInstalledDependencies_def readDependenciesJson_def generateDependencyGraph_def
        registerDeclaredDependencies_def readInstalledDependenciesJson_def io_bind_def)

theorem unknown_packageManager_witness:
  "generateDependencyGraph bowerProject \<lparr>projectPath = ''/proj'', packageManager = Some ''yarn''\<rparr>
     = ([], Inl (Error ''A 'packageManager' must be supplied''))
   \<and> listInstalledDependencies bowerProject \<lparr>projectPath = ''/proj'', packageManager = None\<rparr>
     = ([], Inl (Error ''A 'packageManager' must be supplied''))"
  using unknown_packageManager
      [of "\<lparr>projectPath = ''/proj'', packageManager = Some ''yarn''\<rparr>" bowerProject]
    unknown_packageManager
      [of "\<lparr>projectPath = ''/proj'', packageManager = None\<rparr>" bowerProject]
  by simp

subsection \<open>Enumerating the installed dependencies\<close>

lemma split_nonempty: "split c s \<noteq> []"
  by (induction s) (auto split: list.splits)

lemma split_no_sep: "c \<notin> set s \<Longrightarrow> split c s = [s]"
  by (induction s) auto

lemma split_append: "split c (xs @ c # ys) = split c xs @ split c ys"
proof (induction xs)
  case Nil
  then show ?case by simp
next
  case (Cons x xs)
  then show ?case using split_nonempty[of c xs] by (cases "split c xs") auto
qed

lemma resolveLoop_suffix:
  "\<exists>pre. fst (resolveLoop paths acc) = pre @ acc \<and> (pre = [] \<or> last pre = sep)"
proof (induction paths arbitrary: acc)
  case Nil
  then show ?case by simp
next
  case (Cons p paths)
  show ?case
  proof (cases "p = []")
    case True
    then show ?thesis using Cons.IH[of acc] by simp
  next
    case False
    show ?thesis
    proof (cases "isAbsolute p")
      case True
      have "fst (resolveLoop (p # paths) acc) = (p @ [sep]) @ acc" using True False by simp
      then show ?thesis by (metis last_snoc)
    next
      case nabs: False
      from Cons.IH[of "p @ [sep] @ acc"] obtain pre
        where "fst (resolveLoop paths (p @ [sep] @ acc)) = pre @ p @ [sep] @ acc" by blast
      then have "fst (resolveLoop (p # paths) acc) = (pre @ p @ [sep]) @ acc"
        using False nabs by simp
      moreover have "last (pre @ p @ [sep]) = sep" by simp
      ultimately show ?thesis by blast
    qed
  qed
qed

lemma normalizeSegments_append:
  "normalizeSegments a res (xs @ ys) = normalizeSegments a (rev (normalizeSegments a res xs)) ys"
  by (induction xs arbitrary: res) (auto split: list.splits)

lemma normalizeSegments_entry:
  assumes "isEntryName n"
  shows "\<exists>kept. normalizeSegments a [] (segs @ [n, []]) = kept @ [n]"
proof -
  have "normalizeSegments a res [n, []] = rev res @ [n]" for res
    using assms by (simp add: isEntryName_def)
  then show ?thesis by (simp add: normalizeSegments_append)
qed

lemma joinSegments_snoc:
  "joinSegments (kept @ [n]) = (if kept = [] then n else joinSegments kept @ sep # n)"
  by (induction kept) auto

lemma last_split_join:
  assumes "sep \<notin> set n"
  shows "last (split sep (joinSegments (kept @ [n]))) = n"
proof (cases "kept = []")
  case True
  then show ?thesis using assms by (simp add: split_no_sep)
next
  case False
  then show ?thesis using assms by (simp add: joinSegments_snoc split_append split_no_sep)
qed

lemma joinSegments_snoc_nonempty: "n \<noteq> [] \<Longrightarrow> joinSegments (kept @ [n]) \<noteq> []"
  by (simp add: joinSegments_snoc)

lemma resolve_entry_ending:
  assumes "isEntryName n"
  shows "last (split sep (resolve wd [dir, n])) = n"
proof -
  have n: "n \<noteq> []" "sep \<notin> set n" using assms by (auto simp: isEntryName_def)
  then have nabs: "\<not> isAbsolute n" by (cases n) (auto simp: isAbsolute_def)
  obtain rp ab where loop: "resolveLoop [dir, wd] (n @ [sep]) = (rp, ab)" by (cases "resolveLoop [dir, wd] (n @ [sep])")
  then have loop': "resolveLoop (rev [dir, n] @ [wd]) [] = (rp, ab)" using n nabs by simp
  from resolveLoop_suffix[of "[dir, wd]" "n @ [sep]"] loop obtain pre
    where rp: "rp = pre @ n @ [sep]" and pre: "pre = [] \<or> last pre = sep" by auto
  have "\<exists>segs. split sep rp = segs @ [n, []]"
  proof (cases "pre = []")
    case True
    then show ?thesis using rp n split_append[of sep n "[]"] by (simp add: split_no_sep)
  next
    case False
    then obtain pre' where "pre = pre' @ [sep]" using pre by (metis append_butlast_last_id)
    then have "split sep rp = split sep pre' @ split sep (n @ sep # [])"
      using rp split_append[of sep pre' "n @ [sep]"] by simp
    then show ?thesis using n split_append[of sep n "[]"] by (simp add: split_no_sep)
  qed
  then obtain segs where segs: "split sep rp = segs @ [n, []]" by blast
  from normalizeSegments_entry[OF assms, of "\<not> ab" segs] obtain kept
    where kept: "normalizeSegments (\<not> ab) [] (split sep rp) = kept @ [n]" using segs by auto
  have norm: "normalizeString rp (\<not> ab) = joinSegments (kept @ [n])"
    using kept by (simp add: normalizeString_def)
  have ne: "joinSegments (kept @ [n]) \<noteq> []" using n by (simp add: joinSegments_snoc_nonempty)
  have l: "last (split sep (joinSegments (kept @ [n]))) = n" using n(2) by (rule last_split_join)
  show ?thesis
  proof (cases ab)
    case True
    then have "resolve wd [dir, n] = sep # joinSegments (kept @ [n])"
      using loop' norm by (simp add: resolve_def)
    then show ?thesis using l split_nonempty[of sep "joinSegments (kept @ [n])"] by simp
  next
    case False
    then have "resolve wd [dir, n] = joinSegments (kept @ [n])"
      using loop' norm ne by (simp add: resolve_def)
    then show ?thesis using l by simp
  qed
qed

lemma execFrom_Bol_later:
  "length t < n \<Longrightarrow> execFrom n (Seq Bol r) t = None"
  by (induction t) auto

lemma test_word_start:
  "test (Seq Bol WordChar) s = (case s of [] \<Rightarrow> False | c # _ \<Rightarrow> isWordChar c)"
proof (cases s)
  case Nil
  then show ?thesis by (simp add: test_def exec_def rx_char_def)
next
  case (Cons c cs)
  have "execFrom (length (c # cs)) (Seq Bol WordChar) cs = None"
    by (rule execFrom_Bol_later) simp
  then show ?thesis using Cons by (simp add: test_def exec_def rx_char_def)
qed

lemma extractFoldersSync_all:
  assumes "\<forall>p \<in> set paths. fs w p \<noteq> None"
  shows "extractFoldersSync w paths =
           (map StatSync paths,
            Inr (filter (\<lambda>p. case fs w p of Some (Directory _) \<Rightarrow> True | _ \<Rightarrow> False) paths))"
  using assms
proof (induction paths)
  case Nil
  then show ?case by simp
next
  case (Cons p paths)
  then obtain node where node: "fs w p = Some node" by auto
  from Cons have IH: "extractFoldersSync w paths =
           (map StatSync paths,
            Inr (filter (\<lambda>p. case fs w p of Some (Directory _) \<Rightarrow> True | _ \<Rightarrow> False) paths))"
    by simp
  show ?case using node IH
    by (cases node) (simp_all add: io_bind_def statSync_isDirectory_def)
qed

text \<open>
  C9, amended. For a directory listing all of whose children \<^verbatim>\<open>statSync\<close> can examine, the
  enumerator (\<^verbatim>\<open>listDirectoryContents\<close>, then \<^verbatim>\<open>extractFolderNamesSync\<close>) returns exactly the
  child names that are directories and begin with a word character, in the order of
  the listing. The names of a listing are entry names: not empty, without a separator,
  and neither \<^verbatim>\<open>.\<close> nor \<^verbatim>\<open>..\<close>.
\<close>

theorem enumerator_lists_word_directories:
  assumes "fs w dir = Some (Directory names)"
    and "\<forall>n \<in> set names. isEntryName n"
    and "\<forall>n \<in> set names. fs w (resolve (cwd w) [dir, n]) \<noteq> None"
  shows "io_bind (listDirectoryContents w dir) (extractFolderNamesSync w)
         = (Readdir dir # map (\<lambda>n. StatSync (resolve (cwd w) [dir, n])) names,
            Inr (spec_enumerate w dir names))"
proof -
  let ?R = "\<lambda>n. resolve (cwd w) [dir, n]"
  let ?D = "\<lambda>p. case fs w p of Some (Directory _) \<Rightarrow> True | _ \<Rightarrow> False"
  have ls: "listDirectoryContents w dir = ([Readdir dir], Inr (map ?R names))"
    using assms(1) by (simp add: listDirectoryContents_def readdir_def io_bind_def)
  have "\<forall>p \<in> set (map ?R names). fs w p \<noteq> None" using assms(3) by simp
  then have folders: "extractFoldersSync w (map ?R names)
                      = (map StatSync (map ?R names), Inr (filter ?D (map ?R names)))"
    by (rule extractFoldersSync_all)
  have endings: "extractPathEndingsSync (filter ?D (map ?R names)) = filter (\<lambda>n. ?D (?R n)) names"
  proof -
    have "map (\<lambda>n. last (split sep (?R n))) (filter (\<lambda>n. ?D (?R n)) names)
          = filter (\<lambda>n. ?D (?R n)) names"
      using assms(2) by (intro map_idI) (simp add: resolve_entry_ending)
    then show ?thesis by (simp add: extractPathEndingsSync_def filter_map o_def)
  qed
  have "filterDotFiles (filter (\<lambda>n. ?D (?R n)) names) = spec_enumerate w dir names"
    by (simp add: filterDotFiles_def spec_enumerate_def test_word_start cong: conj_cong)
  then show ?thesis
    using ls folders endings by (simp add: extractFolderNamesSync_def io_bind_def o_def)
qed

text \<open>
  C9 as stated, for every directory listing, fails: where a listed child cannot be
  examined, \<^verbatim>\<open>statSync\<close> throws inside the filter of \<^verbatim>\<open>extractFoldersSync\<close> and the enumerator
  returns no names, while the child names that are directories and begin with a word
  character are \<^verbatim>\<open>alpha\<close> and \<^verbatim>\<open>zeta\<close>.
\<close>

lemma danglingProject_resolve:
  "resolve (cwd danglingProject) [''/proj/bower_components'', ''alpha''] = ''/proj/bower_components/alpha''"
  "resolve (cwd danglingProject) [''/proj/bower_components'', ''broken''] = ''/proj/bower_components/broken''"
  "resolve (cwd danglingProject) [''/proj/bower_components'', ''zeta''] = ''/proj/bower_components/zeta''"
  by (simp_all add: resolve_def isAbsolute_def sep_def normalizeString_def)

lemma danglingProject_fs:
  "fs danglingProject ''/proj/bower_components'' = Some (Directory [''alpha'', ''broken'', ''zeta''])"
  "fs danglingProject ''/proj/bower_components/alpha'' = Some (Directory [])"
  "fs danglingProject ''/proj/bower_components/broken'' = None"
  "fs danglingProject ''/proj/bower_components/zeta'' = Some (Directory [])"
  by (simp_all add: danglingProject_def)

theorem enumerator_every_listing_counterexample:
  "io_bind (listDirectoryContents danglingProject ''/proj/bower_components'')
     (extractFolderNamesSync danglingProject)
   = ([Readdir ''/proj/bower_components'', StatSync ''/proj/bower_components/alpha'',
       StatSync ''/proj/bower_components/broken''],
      Inl (SystemError ''ENOENT''))
   \<and> spec_enumerate danglingProject ''/proj/bower_components'' [''alpha'', ''broken'', ''zeta'']
     = [''alpha'', ''zeta'']"
proof -
  have ls: "listDirectoryContents danglingProject ''/proj/bower_components''
            = ([Readdir ''/proj/bower_components''],
               Inr [''/proj/bower_components/alpha'', ''/proj/bower_components/broken'',
                    ''/proj/bower_components/zeta''])"
    by (simp add: listDirectoryContents_def readdir_def io_bind_def danglingProject_fs
          danglingProject_resolve)
  have ex: "extractFolderNamesSync danglingProject
              [''/proj/bower_components/alpha'', ''/proj/bower_components/broken'',
               ''/proj/bower_components/zeta'']
            = ([StatSync ''/proj/bower_components/alpha'', StatSync ''/proj/bower_components/broken''],
               Inl (SystemError ''ENOENT''))"
    by (simp add: extractFolderNamesSync_def io_bind_def statSync_isDirectory_def
          danglingProject_fs)
  have sp: "spec_enumerate danglingProject ''/proj/bower_components'' [''alpha'', ''broken'', ''zeta'']
            = [''alpha'', ''zeta'']"
    by (simp add: spec_enumerate_def danglingProject_resolve danglingProject_fs isWordChar_def)
  show ?thesis by (simp add: ls ex sp io_bind_def)
qed

lemma bowerProject_resolve:
  "resolve (cwd bowerProject) [''/proj/bower_components'', ''.git''] = ''/proj/bower_components/.git''"
  "resolve (cwd bowerProject) [''/proj/bower_components'', ''lodash''] = ''/proj/bower_components/lodash''"
  "resolve (cwd bowerProject) [''/proj/bower_components'', ''left-pad''] = ''/proj/bower_components/left-pad''"
  "resolve (cwd bowerProject) [''/proj'', ''bower_components''] = ''/proj/bower_components''"
  by (simp_all add: resolve_def isAbsolute_def sep_def normalizeString_def)

theorem enumerator_lists_word_directories_witness:
  "io_bind (listDirectoryContents bowerProject ''/proj/bower_components'')
     (extractFolderNamesSync bowerProject)
   = ([Readdir ''/proj/bower_components'', StatSync ''/proj/bower_components/.git'',
       StatSync ''/proj/bower_components/lodash'', StatSync ''/proj/bower_components/left-pad''],
      Inr [''lodash'', ''left-pad''])
   \<and> listInstalledDependencies bowerProject \<lparr>projectPath = ''/proj'', packageManager = Some ''bower''\<rparr>
     = ([Readdir ''/proj/bower_components'', StatSync ''/proj/bower_components/.git'',
         StatSync ''/proj/bower_components/lodash'', StatSync ''/proj/bower_components/left-pad''],
        Inr [''lodash'', ''left-pad''])"
proof -
  have f: "fs bowerProject ''/proj/bower_components''
           = Some (Directory [''.git'', ''lodash'', ''left-pad''])"
    by (simp add: bowerProject_def)
  have n: "\<forall>n \<in> set [''.git'', ''lodash'', ''left-pad'']. isEntryName n"
    by (simp add: isEntryName_def sep_def)
  have c: "\<forall>n \<in> set [''.git'', ''lodash'', ''left-pad''].
             fs bowerProject (resolve (cwd bowerProject) [''/proj/bower_components'', n]) \<noteq> None"
    by (simp add: bowerProject_resolve) (simp add: bowerProject_def)
  have s: "spec_enumerate bowerProject ''/proj/bower_components'' [''.git'', ''lodash'', ''left-pad'']
           = [''lodash'', ''left-pad'']"
    by (simp add: spec_enumerate_def bowerProject_resolve) (simp add: bowerProject_def isWordChar_def)
  have e: "io_bind (listDirectoryContents bowerProject ''/proj/bower_components'')
             (extractFolderNamesSync bowerProject)
           = ([Readdir ''/proj/bower_components'', StatSync ''/proj/bower_components/.git'',
               StatSync ''/proj/bower_components/lodash'', StatSync ''/proj/bower_components/left-pad''],
              Inr [''lodash'', ''left-pad''])"
    using enumerator_lists_word_directories[OF f n c] by (simp add: s bowerProject_resolve)
  then show ?thesis
    by (simp add: listInstalledDependencies_def bowerProject_resolve)
qed

subsection \<open>Implied dependencies\<close>

lemma addImplied_aliases:
  "getDependencyAliases (addImpliedDependency key g) nm = getDependencyAliases g nm"
  by (simp add: addImpliedDependency_def getDependencyAliases_def)

lemma addImplied_mono: "set (nodes g) \<subseteq> set (nodes (addImpliedDependency key g))"
  by (auto simp: addImpliedDependency_def)

lemma addImplied_distinct:
  "distinct (map metadata (nodes g)) \<Longrightarrow> distinct (map metadata (nodes (addImpliedDependency key g)))"
  by (auto simp: addImpliedDependency_def hasNode_def)

lemma addImplied_registers:
  assumes "\<not> contains (Some v) (getDependencyAliases g n)"
  shows "\<lparr>metadata = \<lparr>name = Some (JString n), version = Some v\<rparr>, manifest = None\<rparr>
           \<in> set (nodes (addImpliedDependency \<lparr>name = Some (JString n), version = Some v\<rparr> g))"
proof (cases "hasNode g \<lparr>name = Some (JString n), version = Some v\<rparr>")
  case False
  then show ?thesis by (simp add: addImpliedDependency_def)
next
  case True
  then obtain nd where nd: "nd \<in> set (nodes g)"
      and key: "metadata nd = \<lparr>name = Some (JString n), version = Some v\<rparr>"
    by (auto simp: hasNode_def)
  have "manifest nd = None"
  proof (rule ccontr)
    assume "manifest nd \<noteq> None"
    then have "Some v \<in> set (getDependencyAliases g n)"
      using nd key by (force simp: getDependencyAliases_def)
    then show False using assms by (simp add: contains_def)
  qed
  then have "nd = \<lparr>metadata = \<lparr>name = Some (JString n), version = Some v\<rparr>, manifest = None\<rparr>"
    using key by (cases nd) simp
  then show ?thesis using nd True by (simp add: addImpliedDependency_def)
qed

lemma registerImplied_fold:
  "registerImpliedDependencies g = fold impliedStep (getAllDependencyPairs g) g"
  by (simp add: registerImpliedDependencies_def)

lemma impliedStep_aliases: "getDependencyAliases (impliedStep p g) nm = getDependencyAliases g nm"
  by (cases p) (simp add: impliedStep_def addImplied_aliases)

lemma fold_impliedStep_aliases:
  "getDependencyAliases (fold impliedStep ps g) nm = getDependencyAliases g nm"
  by (induction ps arbitrary: g) (simp_all add: impliedStep_aliases)

lemma impliedStep_mono: "set (nodes g) \<subseteq> set (nodes (impliedStep p g))"
  using addImplied_mono by (cases p) (auto simp: impliedStep_def)

lemma fold_impliedStep_mono: "set (nodes g) \<subseteq> set (nodes (fold impliedStep ps g))"
proof (induction ps arbitrary: g)
  case Nil
  then show ?case by simp
next
  case (Cons p ps)
  show ?case using impliedStep_mono[of g p] Cons.IH[of "impliedStep p g"] by auto
qed

lemma impliedStep_distinct:
  "distinct (map metadata (nodes g)) \<Longrightarrow> distinct (map metadata (nodes (impliedStep p g)))"
  by (cases p) (simp add: impliedStep_def addImplied_distinct)

lemma fold_impliedStep_distinct:
  "distinct (map metadata (nodes g)) \<Longrightarrow> distinct (map metadata (nodes (fold impliedStep ps g)))"
  by (induction ps arbitrary: g) (simp_all add: impliedStep_distinct)

lemma fold_impliedStep_registers:
  assumes "(n, v) \<in> set ps" and "\<not> contains (Some v) (getDependencyAliases g n)"
  shows "\<lparr>metadata = \<lparr>name = Some (JString n), version = Some v\<rparr>, manifest = None\<rparr>
           \<in> set (nodes (fold impliedStep ps g))"
proof -
  from assms(1) obtain ps1 ps2 where ps: "ps = ps1 @ (n, v) # ps2"
    by (auto dest: split_list)
  let ?g1 = "fold impliedStep ps1 g"
  have "\<not> contains (Some v) (getDependencyAliases ?g1 n)"
    using assms(2) by (simp add: fold_impliedStep_aliases)
  then have "\<lparr>metadata = \<lparr>name = Some (JString n), version = Some v\<rparr>, manifest = None\<rparr>
               \<in> set (nodes (impliedStep (n, v) ?g1))"
    using addImplied_registers[of v ?g1 n] by (simp add: impliedStep_def)
  then show ?thesis
    using fold_impliedStep_mono[of "impliedStep (n, v) ?g1" ps2] ps by auto
qed

text \<open>
  C1. For every registered node and every pair (name, version range) of its declared
  dependencies, if the range is not equal to a version registered as an alias of the
  name, the graph holds the implied node (name, range) after the resolver has run.
\<close>

theorem implied_node_registered:
  assumes "key \<in> set (listDependencies g)"
    and "(n, v) \<in> set (getDependencyPairs (getDependencyData g key))"
    and "\<not> contains (Some v) (getDependencyAliases g n)"
  shows "\<lparr>metadata = \<lparr>name = Some (JString n), version = Some v\<rparr>, manifest = None\<rparr>
           \<in> set (nodes (registerImpliedDependencies g))"
proof -
  have "(n, v) \<in> set (getAllDependencyPairs g)"
    using assms(1,2) by (auto simp: getAllDependencyPairs_def unnest_def)
  then show ?thesis
    using assms(3) by (simp add: registerImplied_fold fold_impliedStep_registers)
qed

text \<open>
  A declares B at \<^verbatim>\<open>^2.0.0\<close> and B is installed at 2.3.1: the only alias of B is 2.3.1, and
  the implied node (B, \<^verbatim>\<open>^2.0.0\<close>) stands beside the real node (B, 2.3.1).
\<close>

lemma graphAB:
  "registerManifests [manifestA, manifestB] emptyGraph =
     \<lparr>nodes = [\<lparr>metadata = \<lparr>name = Some (JString ''A''), version = Some (JString ''1.0.0'')\<rparr>,
                 manifest = Some manifestA\<rparr>,
                \<lparr>metadata = \<lparr>name = Some (JString ''B''), version = Some (JString ''2.3.1'')\<rparr>,
                 manifest = Some manifestB\<rparr>],
      interDependencies = []\<rparr>"
  by (simp add: registerManifests_def emptyGraph_def addRealDependency_def hasNode_def
        getDependencyMetadata_def firstDefinedProperty_def intersection_def uniq_def head_def
        keys_def prop_of_def manifestA_def manifestB_def)

theorem implied_node_registered_witness:
  "getDependencyAliases (registerManifests [manifestA, manifestB] emptyGraph) ''B''
     = [Some (JString ''2.3.1'')]
   \<and> \<lparr>metadata = \<lparr>name = Some (JString ''B''), version = Some (JString ''^2.0.0'')\<rparr>,
       manifest = None\<rparr>
       \<in> set (nodes (registerImpliedDependencies
                       (registerManifests [manifestA, manifestB] emptyGraph)))
   \<and> \<lparr>metadata = \<lparr>name = Some (JString ''B''), version = Some (JString ''2.3.1'')\<rparr>,
       manifest = Some manifestB\<rparr>
       \<in> set (nodes (registerImpliedDependencies
                       (registerManifests [manifestA, manifestB] emptyGraph)))"
proof -
  let ?g = "registerManifests [manifestA, manifestB] emptyGraph"
  let ?a = "\<lparr>name = Some (JString ''A''), version = Some (JString ''1.0.0'')\<rparr>"
  have al: "getDependencyAliases ?g ''B'' = [Some (JString ''2.3.1'')]"
    by (simp add: graphAB getDependencyAliases_def)
  have k: "?a \<in> set (listDependencies ?g)"
    by (simp add: graphAB listDependencies_def)
  have d: "getDependencyData ?g ?a = manifestA"
    by (simp add: graphAB getDependencyData_def)
  have p: "(''B'', JString ''^2.0.0'') \<in> set (getDependencyPairs (getDependencyData ?g ?a))"
    unfolding d by (simp add: getDependencyPairs_def prop_of_def toPairs_def manifestA_def)
  have c: "\<not> contains (Some (JString ''^2.0.0'')) (getDependencyAliases ?g ''B'')"
    by (simp add: al contains_def)
  have r: "\<lparr>metadata = \<lparr>name = Some (JString ''B''), version = Some (JString ''2.3.1'')\<rparr>,
            manifest = Some manifestB\<rparr> \<in> set (nodes ?g)"
    by (simp add: graphAB)
  have m: "set (nodes ?g) \<subseteq> set (nodes (registerImpliedDependencies ?g))"
    by (simp add: registerImplied_fold fold_impliedStep_mono)
  show ?thesis
    using implied_node_registered[OF k p c] al r m by blast
qed

lemma addReal_keys:
  "map metadata (nodes (addRealDependency key j g))
   = (if hasNode g key then map metadata (nodes g) else map metadata (nodes g) @ [key])"
proof -
  have "map metadata (map (\<lambda>n. if metadata n = key then n\<lparr>manifest := Some j\<rparr> else n) ns)
        = map metadata ns" for ns :: "DependencyNode list"
    by (induction ns) auto
  then show ?thesis by (simp add: addRealDependency_def)
qed

lemma addReal_distinct:
  "distinct (map metadata (nodes g)) \<Longrightarrow> distinct (map metadata (nodes (addRealDependency key j g)))"
  by (simp add: addReal_keys) (simp add: hasNode_def)

lemma registerManifests_distinct:
  "distinct (map metadata (nodes g)) \<Longrightarrow> distinct (map metadata (nodes (registerManifests ms g)))"
  unfolding registerManifests_def
  by (induction ms arbitrary: g) (simp_all add: addReal_distinct)

lemma filter_key_singleton:
  "distinct (map f xs) \<Longrightarrow> x \<in> set xs \<Longrightarrow> filter (\<lambda>y. f y = f x) xs = [x]"
proof (induction xs)
  case Nil
  then show ?case by simp
next
  case (Cons a xs)
  show ?case
  proof (cases "a = x")
    case True
    have "filter (\<lambda>y. f y = f x) xs = []"
      using Cons.prems(1) True by (auto simp: filter_empty_conv image_iff)
    then show ?thesis using True by simp
  next
    case False
    then have "x \<in> set xs" using Cons.prems(2) by simp
    moreover have "f a \<noteq> f x" using Cons.prems(1) \<open>x \<in> set xs\<close> by auto
    ultimately show ?thesis using Cons by simp
  qed
qed

text \<open>
  C6. After the manifests read are registered and the resolver has run, no implied node
  has the name and version of a real node, and a pair that is declared, however often,
  and is not an alias has exactly one node, which is implied.
\<close>

theorem implied_node_single:
  fixes ms :: "DependencyJson list"
  defines "g \<equiv> registerManifests ms emptyGraph"
  shows "(\<forall>i \<in> set (nodes (registerImpliedDependencies g)).
            manifest i = None \<longrightarrow>
              (\<forall>r \<in> set (nodes (registerImpliedDependencies g)).
                 manifest r \<noteq> None \<longrightarrow>
                   name (metadata r) \<noteq> name (metadata i)
                   \<or> version (metadata r) \<noteq> version (metadata i)))
       \<and> (\<forall>n v. (n, v) \<in> set (getAllDependencyPairs g)
                  \<and> \<not> contains (Some v) (getDependencyAliases g n) \<longrightarrow>
              filter (\<lambda>nd. metadata nd = \<lparr>name = Some (JString n), version = Some v\<rparr>)
                (nodes (registerImpliedDependencies g))
              = [\<lparr>metadata = \<lparr>name = Some (JString n), version = Some v\<rparr>, manifest = None\<rparr>])"
proof -
  let ?g' = "registerImpliedDependencies g"
  have "distinct (map metadata (nodes g))"
    unfolding g_def by (rule registerManifests_distinct) (simp add: emptyGraph_def)
  then have dist: "distinct (map metadata (nodes ?g'))"
    by (simp add: registerImplied_fold fold_impliedStep_distinct)
  have a: "name (metadata r) \<noteq> name (metadata i) \<or> version (metadata r) \<noteq> version (metadata i)"
    if i: "i \<in> set (nodes ?g')" "manifest i = None"
      and r: "r \<in> set (nodes ?g')" "manifest r \<noteq> None" for i r
  proof (rule ccontr)
    assume "\<not> ?thesis"
    then have "metadata r = metadata i" by simp
    moreover have "r \<noteq> i" using i(2) r(2) by auto
    ultimately show False using dist i(1) r(1) by (meson distinct_map inj_onD)
  qed
  have b: "filter (\<lambda>nd. metadata nd = \<lparr>name = Some (JString n), version = Some v\<rparr>) (nodes ?g')
           = [\<lparr>metadata = \<lparr>name = Some (JString n), version = Some v\<rparr>, manifest = None\<rparr>]"
    if p: "(n, v) \<in> set (getAllDependencyPairs g)"
      and c: "\<not> contains (Some v) (getDependencyAliases g n)" for n v
  proof -
    let ?i = "\<lparr>metadata = \<lparr>name = Some (JString n), version = Some v\<rparr>, manifest = None\<rparr>"
    have "?i \<in> set (nodes ?g')"
      using p c by (simp add: registerImplied_fold fold_impliedStep_registers)
    from filter_key_singleton[OF dist this] show ?thesis by simp
  qed
  show ?thesis using a b by blast
qed

lemma graphACB:
  "registerManifests [manifestA, manifestC, manifestB] emptyGraph =
     \<lparr>nodes = [\<lparr>metadata = \<lparr>name = Some (JString ''A''), version = Some (JString ''1.0.0'')\<rparr>,
                 manifest = Some manifestA\<rparr>,
                \<lparr>metadata = \<lparr>name = Some (JString ''C''), version = Some (JString ''0.1.0'')\<rparr>,
                 manifest = Some manifestC\<rparr>,
                \<lparr>metadata = \<lparr>name = Some (JString ''B''), version = Some (JString ''2.3.1'')\<rparr>,
                 manifest = Some manifestB\<rparr>],
      interDependencies = []\<rparr>"
  by (simp add: registerManifests_def emptyGraph_def addRealDependency_def hasNode_def
        getDependencyMetadata_def firstDefinedProperty_def intersection_def uniq_def head_def
        keys_def prop_of_def manifestA_def manifestB_def manifestC_def)

lemma pairsACB:
  "getAllDependencyPairs (registerManifests [manifestA, manifestC, manifestB] emptyGraph)
   = [(''B'', JString ''^2.0.0''), (''B'', JString ''^2.0.0''), (''A'', JString ''1.0.0'')]"
  unfolding graphACB
  by (simp add: getAllDependencyPairs_def listDependencies_def getDependencyData_def unnest_def)
     (simp add: getDependencyPairs_def prop_of_def toPairs_def manifestA_def manifestB_def
        manifestC_def)

theorem implied_node_single_witness:
  "getAllDependencyPairs (registerManifests [manifestA, manifestC, manifestB] emptyGraph)
     = [(''B'', JString ''^2.0.0''), (''B'', JString ''^2.0.0''), (''A'', JString ''1.0.0'')]
   \<and> filter (\<lambda>nd. metadata nd = \<lparr>name = Some (JString ''B''), version = Some (JString ''^2.0.0'')\<rparr>)
       (nodes (registerImpliedDependencies
                 (registerManifests [manifestA, manifestC, manifestB] emptyGraph)))
     = [\<lparr>metadata = \<lparr>name = Some (JString ''B''), version = Some (JString ''^2.0.0'')\<rparr>,
         manifest = None\<rparr>]"
proof -
  let ?g = "registerManifests [manifestA, manifestC, manifestB] emptyGraph"
  have p: "(''B'', JString ''^2.0.0'') \<in> set (getAllDependencyPairs ?g)"
    by (simp add: pairsACB)
  have al: "getDependencyAliases ?g ''B'' = [Some (JString ''2.3.1'')]"
    by (simp add: graphACB getDependencyAliases_def)
  have c: "\<not> contains (Some (JString ''^2.0.0'')) (getDependencyAliases ?g ''B'')"
    by (simp add: al contains_def)
  show ?thesis
    using implied_node_single[of "[manifestA, manifestC, manifestB]"] p c pairsACB by blast
qed

lemma impliedStep_apply:
  "impliedStep (n, v) g =
     (if \<not> contains (Some v) (getDependencyAliases g n)
      then addImpliedDependency \<lparr>name = Some (JString n), version = Some v\<rparr> g
      else g)"
  by (simp add: impliedStep_def)

lemma nodesACB:
  "map metadata (nodes (registerImpliedDependencies
      (registerManifests [manifestA, manifestC, manifestB] emptyGraph)))
   = [\<lparr>name = Some (JString ''A''), version = Some (JString ''1.0.0'')\<rparr>,
      \<lparr>name = Some (JString ''C''), version = Some (JString ''0.1.0'')\<rparr>,
      \<lparr>name = Some (JString ''B''), version = Some (JString ''2.3.1'')\<rparr>,
      \<lparr>name = Some (JString ''B''), version = Some (JString ''^2.0.0'')\<rparr>]"
  unfolding registerImpliedDependencies_def pairsACB
  unfolding graphACB
  by (simp add: impliedStep_apply contains_def getDependencyAliases_def addImpliedDependency_def
        hasNode_def)

end
